theory Spec2Isabelle
  imports Complex_Main "HOL-Library.AList"
begin

section \<open>The host runtime as the application sees it\<close>

text \<open>
  \<^verbatim>\<open>app.ts\<close> drives a scene through the SDK: it creates actors, destroys them and
  binds click handlers. The scene is modelled as a log kept in the session context:
  the actors created so far (in creation order), the identifiers on which
  \<^verbatim>\<open>destroy()\<close> was called (in call order, so that a second call would show), and
  the click handlers bound so far.

  Numbers are JavaScript doubles in the source. The application only copies them, except
  for the menu abscissa, a repeated sum of 1.5 (exact in binary floating point for any menu
  that fits in memory), so they are modelled as reals. The product of an angle in degrees
  with the SDK's constant \<^verbatim>\<open>DegreesToRadians\<close> is kept symbolic, as a constructor applied
  to the angle in degrees, and so is the SDK's quaternion constructor, applied to the three
  angles the source passes.
\<close>

record Vector3 =
  vec_x :: real
  vec_y :: real
  vec_z :: real

datatype Radians = TimesDegreesToRadians real

datatype Quaternion = FromEulerAngles Radians Radians Radians

record ActorTransform =
  tr_position :: "Vector3 option"
  tr_rotation :: "Quaternion option"
  tr_scale :: "Vector3 option"

record Attachment =
  attachPoint :: string
  att_userId :: string

datatype PrimitiveShape = Box

datatype ActorSource =
    Empty
  | Library "string option"
  | Primitive PrimitiveShape Vector3 bool

record Actor =
  actor_id :: nat
  actor_source :: ActorSource
  actor_parentId :: "nat option"
  actor_name :: "string option"
  actor_transform :: ActorTransform
  actor_attachment :: "Attachment option"

record Context =
  actors :: "Actor list"
  destroyed :: "nat list"
  behaviors :: "(nat \<times> string) list"

text \<open>
  A click handler is the closure \<^verbatim>\<open>(userId) => this.wearHat(hatId, userId)\<close>; it is
  stored as the \<^verbatim>\<open>hatId\<close> it captured, next to the actor it is bound to. Fresh actor
  identifiers are the position in the creation log.
\<close>

definition create_actor ::
  "Context \<Rightarrow> ActorSource \<Rightarrow> nat option \<Rightarrow> string option \<Rightarrow> ActorTransform \<Rightarrow>
   Attachment option \<Rightarrow> nat \<times> Context" where
  "create_actor c src parent nm tr att =
     (let i = length (actors c) in
      (i, c\<lparr>actors := actors c @
            [\<lparr>actor_id = i, actor_source = src, actor_parentId = parent, actor_name = nm,
              actor_transform = tr, actor_attachment = att\<rparr>]\<rparr>))"

definition no_transform :: ActorTransform where
  "no_transform = \<lparr>tr_position = None, tr_rotation = None, tr_scale = None\<rparr>"

definition CreateEmpty :: "Context \<Rightarrow> nat \<times> Context" where
  "CreateEmpty c = create_actor c Empty None None no_transform None"

definition CreateFromLibrary ::
  "Context \<Rightarrow> string option \<Rightarrow> ActorTransform \<Rightarrow> Attachment option \<Rightarrow> nat \<times> Context" where
  "CreateFromLibrary c rid tr att = create_actor c (Library rid) None None tr att"

definition CreatePrimitive ::
  "Context \<Rightarrow> PrimitiveShape \<Rightarrow> Vector3 \<Rightarrow> bool \<Rightarrow> nat option \<Rightarrow> string option \<Rightarrow>
   ActorTransform \<Rightarrow> nat \<times> Context" where
  "CreatePrimitive c shape dims addCollider parent nm tr =
     create_actor c (Primitive shape dims addCollider) parent nm tr None"

definition Actor_destroy :: "nat \<Rightarrow> Context \<Rightarrow> Context" where
  "Actor_destroy a c = c\<lparr>destroyed := destroyed c @ [a]\<rparr>"

definition setBehavior_onClick :: "nat \<Rightarrow> string \<Rightarrow> Context \<Rightarrow> Context" where
  "setBehavior_onClick a hatId c = c\<lparr>behaviors := behaviors c @ [(a, hatId)]\<rparr>"


section \<open>Statements, early return and exceptions\<close>

text \<open>
  A method body is a sequence of statements. A statement completes normally, returns
  from the method, or throws; \<open>block\<close> runs statements in order and stops at the first
  one that does not complete normally, so that what follows a \<^verbatim>\<open>return\<close> inside a block
  is written down in the model exactly where the source has it, and never runs. A throw
  keeps the state it happened in: what the statements before it changed stays changed.
  \<open>call\<close> is the outcome of a method call (the new state, or the exception), and
  \<open>state_after\<close> is the state the call leaves behind, whether it returned or threw.
\<close>

datatype js_error = TypeError

datatype 's completion = Normal 's | Returned 's | Thrown js_error 's

type_synonym 's stmt = "'s \<Rightarrow> 's completion"

fun block :: "'s stmt list \<Rightarrow> 's stmt" where
  "block [] s = Normal s"
| "block (c # cs) s =
     (case c s of
        Normal s' \<Rightarrow> block cs s'
      | Returned s' \<Rightarrow> Returned s'
      | Thrown e s' \<Rightarrow> Thrown e s')"

definition if_then :: "('s \<Rightarrow> bool) \<Rightarrow> 's stmt \<Rightarrow> 's stmt" where
  "if_then b c s = (if b s then c s else Normal s)"

definition return_stmt :: "'s stmt" where
  "return_stmt s = Returned s"

definition call :: "'s stmt \<Rightarrow> 's \<Rightarrow> js_error + 's" where
  "call body s =
     (case body s of
        Normal s' \<Rightarrow> Inr s'
      | Returned s' \<Rightarrow> Inr s'
      | Thrown e s' \<Rightarrow> Inl e)"

definition state_after :: "'s stmt \<Rightarrow> 's \<Rightarrow> 's" where
  "state_after body s =
     (case body s of
        Normal s' \<Rightarrow> s'
      | Returned s' \<Rightarrow> s'
      | Thrown e s' \<Rightarrow> s')"


section \<open>The application state\<close>

text \<open>
  \<^verbatim>\<open>HatDescriptor\<close> declares every field, but the data files may leave fields out and
  the code tests each one for truthiness before use, so each field is optional. An object
  is always truthy; a string is truthy when it is not empty.

  A JavaScript object used as a dictionary is an association list of its own properties
  in creation order, each key once (a lookup in a list that repeats a key reads the first
  entry). \<^verbatim>\<open>attachedHats\<close> is only ever read and written at one key, so its own
  properties are a map from user identifiers to the identifier of the attached actor.

  Both dictionaries are plain objects (\<^verbatim>\<open>{}\<close> on lines 37 and 41, and the target of
  \<^verbatim>\<open>Object.assign\<close>), so a lookup \<^verbatim>\<open>dict[key]\<close> that finds no own property goes on to
  \<^verbatim>\<open>Object.prototype\<close>. The names below are its properties. Each of them reads as a
  truthy value (a function; for \<^verbatim>\<open>__proto__\<close> the prototype object itself) that has none
  of the properties the application reads or calls: no \<^verbatim>\<open>destroy\<close> and no field of a hat
  descriptor. A read of \<^verbatim>\<open>dict[key]\<close> thus finds an own property, an inherited one, or
  \<^verbatim>\<open>undefined\<close>. An assignment \<^verbatim>\<open>dict[key] = value\<close> creates or overwrites an own
  property, except for the key \<^verbatim>\<open>__proto__\<close>: that assignment reaches the accessor of
  \<^verbatim>\<open>Object.prototype\<close>, which stores no own property (it replaces the prototype of the
  dictionary when the value is an object and does nothing when it is a number).
\<close>

record HatDescriptor =
  resourceId :: "string option"
  scale :: "Vector3 option"
  rotation :: "Vector3 option"
  position :: "Vector3 option"

record User =
  user_id :: string

record WearAHat =
  app_context :: Context
  HatDatabase :: "(string \<times> HatDescriptor) list"
  attachedHats :: "string \<rightharpoonup> nat"

definition Object_prototype_names :: "string list" where
  "Object_prototype_names =
     [''constructor'', ''__defineGetter__'', ''__defineSetter__'', ''hasOwnProperty'',
      ''__lookupGetter__'', ''__lookupSetter__'', ''isPrototypeOf'', ''propertyIsEnumerable'',
      ''toString'', ''valueOf'', ''__proto__'', ''toLocaleString'']"

datatype 'a property = Own 'a | Inherited | Undefined

definition get_property :: "(string \<rightharpoonup> 'a) \<Rightarrow> string \<Rightarrow> 'a property" where
  "get_property own key =
     (case own key of
        Some v \<Rightarrow> Own v
      | None \<Rightarrow> if key \<in> set Object_prototype_names then Inherited else Undefined)"

definition truthy_property :: "'a property \<Rightarrow> bool" where
  "truthy_property p = (case p of Own v \<Rightarrow> True | Inherited \<Rightarrow> True | Undefined \<Rightarrow> False)"

definition truthy_string :: "string option \<Rightarrow> bool" where
  "truthy_string v = (case v of None \<Rightarrow> False | Some str \<Rightarrow> str \<noteq> [])"

definition vec3 :: "real \<Rightarrow> real \<Rightarrow> real \<Rightarrow> Vector3" where
  "vec3 a b c = \<lparr>vec_x = a, vec_y = b, vec_z = c\<rparr>"

text \<open>
  \<^verbatim>\<open>Quaternion.FromEulerAngles(r.x * DegreesToRadians, r.y * DegreesToRadians,
  r.z * DegreesToRadians)\<close>, as both call sites write it.
\<close>

definition euler_degrees :: "Vector3 \<Rightarrow> Quaternion" where
  "euler_degrees r =
     FromEulerAngles (TimesDegreesToRadians (vec_x r)) (TimesDegreesToRadians (vec_y r))
       (TimesDegreesToRadians (vec_z r))"


section \<open>Objects as dictionaries: \<^verbatim>\<open>Object.keys\<close> and \<^verbatim>\<open>Object.assign\<close>\<close>

text \<open>
  \<^verbatim>\<open>Object.keys\<close> lists the keys that are array indices (canonical decimal numerals
  below \<open>2^32 - 1\<close>) first, in ascending numeric order, and then the other keys in
  creation order. An assignment \<^verbatim>\<open>target[k] = v\<close> overwrites the value of an existing
  property where it stands and appends a new property, which is what \<open>AList.update\<close>
  does. \<^verbatim>\<open>Object.assign(target, ...sources)\<close> assigns, source after source from left to
  right, every own property of the source to the target. A source read from a JSON file
  can have an own key \<^verbatim>\<open>__proto__\<close>; assigning it to the target stores no own property,
  as said above, so the key never becomes a key of the target. (The values of the data
  files are descriptor objects, or numbers in the merge example; \<^verbatim>\<open>null\<close> is not a value
  of the declared type.)
\<close>

definition is_digit :: "char \<Rightarrow> bool" where
  "is_digit c = (c \<in> set ''0123456789'')"

definition digit_value :: "char \<Rightarrow> int" where
  "digit_value c = of_char c - 48"

definition numeric_value :: "string \<Rightarrow> int" where
  "numeric_value str = foldl (\<lambda>n c. 10 * n + digit_value c) 0 str"

definition is_array_index :: "string \<Rightarrow> bool" where
  "is_array_index str =
     (str \<noteq> [] \<and> list_all is_digit str \<and> (str = ''0'' \<or> hd str \<in> set ''123456789'') \<and>
      numeric_value str < 4294967295)"

definition Object_keys :: "(string \<times> 'v) list \<Rightarrow> string list" where
  "Object_keys obj =
     sort_key numeric_value (filter is_array_index (map fst obj)) @
     filter (\<lambda>k. \<not> is_array_index k) (map fst obj)"

definition assign_property ::
  "(string \<times> 'v) list \<Rightarrow> string \<Rightarrow> (string \<times> 'v) list \<Rightarrow> (string \<times> 'v) list" where
  "assign_property src k target =
     (if k = ''__proto__'' then target
      else case map_of src k of None \<Rightarrow> target | Some v \<Rightarrow> AList.update k v target)"

fun Object_assign :: "(string \<times> 'v) list \<Rightarrow> (string \<times> 'v) list list \<Rightarrow> (string \<times> 'v) list" where
  "Object_assign target [] = target"
| "Object_assign target (src # srcs) =
     Object_assign (fold (assign_property src) (Object_keys src) target) srcs"


section \<open>Session start: loading the hat database\<close>

text \<open>
  The JSON files under \<^verbatim>\<open>public/\<close> are not part of the sources; they are parameters.
  Lines 54 to 67 do not depend on what the values of the files are, so the selection is
  polymorphic in them. \<^verbatim>\<open>params.kit\<close> is a string or absent.
\<close>

record 'v DataFiles =
  city_helmets_json :: "(string \<times> 'v) list"
  space_helmets_json :: "(string \<times> 'v) list"
  all_json :: "(string \<times> 'v) list"
  defaults_json :: "(string \<times> 'v) list"

definition load_HatDatabase :: "string option \<Rightarrow> 'v DataFiles \<Rightarrow> (string \<times> 'v) list" where
  "load_HatDatabase kit files =
     (if kit = Some ''city_helmets'' then
        Object_assign [] [city_helmets_json files, defaults_json files]
      else if kit = Some ''space_helmets'' then
        Object_assign [] [space_helmets_json files, defaults_json files]
      else
        Object_assign [] [all_json files, defaults_json files])"


section \<open>The menu builder: \<^verbatim>\<open>showHatMenu\<close>\<close>

text \<open>\<^verbatim>\<open>/!$/.test(hatId)\<close>: the identifier ends in an exclamation mark.\<close>

definition regex_test :: "string \<Rightarrow> bool" where
  "regex_test hatId = (hatId \<noteq> [] \<and> last hatId = CHR ''!'')"

definition menu_rotation :: "string \<Rightarrow> HatDescriptor \<Rightarrow> Vector3" where
  "menu_rotation hatId hatRecord =
     (if regex_test hatId \<and> rotation hatRecord \<noteq> None then the (rotation hatRecord)
      else vec3 0 0 0)"

definition menu_scale :: "string \<Rightarrow> HatDescriptor \<Rightarrow> Vector3" where
  "menu_scale hatId hatRecord =
     (if regex_test hatId \<and> scale hatRecord \<noteq> None then the (scale hatRecord)
      else vec3 3 3 3)"

text \<open>Lines 108 to 160: the button of one entry, at abscissa \<open>x\<close>.\<close>

definition create_button ::
  "nat \<Rightarrow> real \<Rightarrow> string \<Rightarrow> HatDescriptor \<Rightarrow> Context \<Rightarrow> nat \<times> Context" where
  "create_button menu x hatId hatRecord c =
     (if truthy_string (resourceId hatRecord) then
        CreateFromLibrary c (resourceId hatRecord)
          \<lparr>tr_position = Some (vec3 x 1 0),
           tr_rotation = Some (euler_degrees (menu_rotation hatId hatRecord)),
           tr_scale = Some (menu_scale hatId hatRecord)\<rparr>
          None
      else
        CreatePrimitive c Box (vec3 0.3 0.3 0.3) True (Some menu) (Some hatId)
          \<lparr>tr_position = Some (vec3 x 0 0), tr_rotation = None, tr_scale = None\<rparr>)"

text \<open>
  Lines 102 to 168: the loop over the keys, with the local \<open>x\<close>. The keys are own
  properties of the database, so the lookup of line 103 finds the own property. Reading
  \<^verbatim>\<open>hatRecord.resourceId\<close> of a missing record would be a \<^verbatim>\<open>TypeError\<close>.
\<close>

fun showHatMenu_loop :: "nat \<Rightarrow> string list \<Rightarrow> real \<Rightarrow> WearAHat stmt" where
  "showHatMenu_loop menu [] x s = Normal s"
| "showHatMenu_loop menu (hatId # rest) x s =
     (case map_of (HatDatabase s) hatId of
        None \<Rightarrow> Thrown TypeError s
      | Some hatRecord \<Rightarrow>
          (case create_button menu x hatId hatRecord (app_context s) of
             (button, c') \<Rightarrow>
               showHatMenu_loop menu rest (x + 1.5)
                 (s\<lparr>app_context := setBehavior_onClick button hatId c'\<rparr>)))"

definition showHatMenu_body :: "WearAHat stmt" where
  "showHatMenu_body s =
     (case CreateEmpty (app_context s) of
        (menu, c') \<Rightarrow>
          showHatMenu_loop menu (Object_keys (HatDatabase s)) 0 (s\<lparr>app_context := c'\<rparr>))"

definition showHatMenu :: "WearAHat \<Rightarrow> js_error + WearAHat" where
  "showHatMenu = call showHatMenu_body"

text \<open>Lines 48 to 80: the state the constructor leaves, and the session start callback.\<close>

definition new_WearAHat :: WearAHat where
  "new_WearAHat =
     \<lparr>app_context = \<lparr>actors = [], destroyed = [], behaviors = []\<rparr>,
      HatDatabase = [],
      attachedHats = Map.empty\<rparr>"

definition started :: "WearAHat \<Rightarrow> js_error + WearAHat" where
  "started = showHatMenu"

definition onStarted :: "string option \<Rightarrow> HatDescriptor DataFiles \<Rightarrow> WearAHat \<Rightarrow> js_error + WearAHat" where
  "onStarted kit files s = started (s\<lparr>HatDatabase := load_HatDatabase kit files\<rparr>)"


section \<open>The attachment manager: \<^verbatim>\<open>userLeft\<close> and \<^verbatim>\<open>wearHat\<close>\<close>

text \<open>
  \<^verbatim>\<open>this.attachedHats[userId]\<close> reads an own property (the stored actor), an inherited
  one, or \<^verbatim>\<open>undefined\<close>; the condition of lines 89, 180 and 185 is its truthiness.
  \<^verbatim>\<open>this.attachedHats[userId].destroy()\<close> is a method call on the stored actor; on an
  inherited value, which has no \<^verbatim>\<open>destroy\<close>, and on \<^verbatim>\<open>undefined\<close> it is a
  \<^verbatim>\<open>TypeError\<close>, thrown before anything is changed.
\<close>

definition destroy_attached :: "string \<Rightarrow> WearAHat stmt" where
  "destroy_attached u s =
     (case get_property (attachedHats s) u of
        Own a \<Rightarrow> Normal (s\<lparr>app_context := Actor_destroy a (app_context s)\<rparr>)
      | Inherited \<Rightarrow> Thrown TypeError s
      | Undefined \<Rightarrow> Thrown TypeError s)"

text \<open>
  \<^verbatim>\<open>delete this.attachedHats[userId]\<close> removes an own property and leaves the
  dictionary as it is when there is none.
\<close>

definition delete_attached :: "string \<Rightarrow> WearAHat stmt" where
  "delete_attached u s = Normal (s\<lparr>attachedHats := (attachedHats s)(u := None)\<rparr>)"

definition is_attached :: "string \<Rightarrow> WearAHat \<Rightarrow> bool" where
  "is_attached u s = truthy_property (get_property (attachedHats s) u)"

text \<open>Lines 86 to 91.\<close>

definition userLeft_body :: "User \<Rightarrow> WearAHat stmt" where
  "userLeft_body user =
     block [
       if_then (is_attached (user_id user)) (destroy_attached (user_id user)),
       delete_attached (user_id user)
     ]"

definition userLeft :: "User \<Rightarrow> WearAHat \<Rightarrow> js_error + WearAHat" where
  "userLeft user = call (userLeft_body user)"

text \<open>
  Lines 188 to 212: look the record up, resolve the three transform components, create
  the actor attached to the user's head and store it. Reading a field of a missing record
  is a \<^verbatim>\<open>TypeError\<close>; an inherited value has none of the four fields, so it reads as a
  descriptor that omits them all. The store of line 196 creates or overwrites an own
  property, except for the user identifier \<^verbatim>\<open>__proto__\<close>.

  A dictionary whose prototype has been replaced (the database by a data file with a key
  \<^verbatim>\<open>__proto__\<close> that holds an object, the attachments by the store of line 196 for the
  user identifier \<^verbatim>\<open>__proto__\<close>) would inherit further names. The state does not record
  a replaced prototype: the only lookups it could change are those of these statements
  and, for the attachments, those after these statements have run.
\<close>

definition no_fields :: HatDescriptor where
  "no_fields = \<lparr>resourceId = None, scale = None, rotation = None, position = None\<rparr>"

definition lookup_hatRecord :: "WearAHat \<Rightarrow> string \<Rightarrow> HatDescriptor option" where
  "lookup_hatRecord s hatId =
     (case get_property (map_of (HatDatabase s)) hatId of
        Own hatRecord \<Rightarrow> Some hatRecord
      | Inherited \<Rightarrow> Some no_fields
      | Undefined \<Rightarrow> None)"

definition store_attached :: "string \<Rightarrow> nat \<Rightarrow> (string \<rightharpoonup> nat) \<Rightarrow> (string \<rightharpoonup> nat)" where
  "store_attached userId a own = (if userId = ''__proto__'' then own else own(userId \<mapsto> a))"

definition resolve_position :: "HatDescriptor \<Rightarrow> Vector3" where
  "resolve_position hatRecord =
     (case position hatRecord of Some p \<Rightarrow> p | None \<Rightarrow> vec3 0 0 0)"

definition resolve_scale :: "HatDescriptor \<Rightarrow> Vector3" where
  "resolve_scale hatRecord =
     (case scale hatRecord of Some p \<Rightarrow> p | None \<Rightarrow> vec3 1.5 1.5 1.5)"

definition resolve_rotation :: "HatDescriptor \<Rightarrow> Vector3" where
  "resolve_rotation hatRecord =
     (case rotation hatRecord of Some p \<Rightarrow> p | None \<Rightarrow> vec3 0 180 0)"

definition attach_hat :: "string \<Rightarrow> string \<Rightarrow> WearAHat stmt" where
  "attach_hat hatId userId s =
     (case lookup_hatRecord s hatId of
        None \<Rightarrow> Thrown TypeError s
      | Some hatRecord \<Rightarrow>
          (case CreateFromLibrary (app_context s) (resourceId hatRecord)
                  \<lparr>tr_position = Some (resolve_position hatRecord),
                   tr_rotation = Some (euler_degrees (resolve_rotation hatRecord)),
                   tr_scale = Some (resolve_scale hatRecord)\<rparr>
                  (Some \<lparr>attachPoint = ''head'', att_userId = userId\<rparr>) of
             (a, c') \<Rightarrow>
               Normal (s\<lparr>app_context := c',
                         attachedHats := store_attached userId a (attachedHats s)\<rparr>)))"

text \<open>
  Lines 176 to 232. The block opened by \<^verbatim>\<open>if (hatId == "clear!") {\<close> on line 178 is
  closed on line 232 only: the statements of lines 185 to 212 stand inside it, after the
  \<^verbatim>\<open>return\<close> of line 182.
\<close>

definition wearHat_body :: "string \<Rightarrow> string \<Rightarrow> WearAHat stmt" where
  "wearHat_body hatId userId =
     block [
       if_then (\<lambda>_. hatId = ''clear!'')
         (block [
            if_then (is_attached userId) (destroy_attached userId),
            delete_attached userId,
            return_stmt,
            if_then (is_attached userId) (destroy_attached userId),
            delete_attached userId,
            attach_hat hatId userId
          ])
     ]"

definition wearHat :: "string \<Rightarrow> string \<Rightarrow> WearAHat \<Rightarrow> js_error + WearAHat" where
  "wearHat hatId userId = call (wearHat_body hatId userId)"


text \<open>
  The host delivers one event at a time: a click on a menu entry runs the handler bound to
  it, which is \<open>wearHat\<close> with the entry's identifier and the clicking user; a departure
  runs \<open>userLeft\<close>. \<open>process\<close> is a run that is cut at the first handler that throws.
  Whether the host goes on delivering events after a handler threw is the host's business:
  \<open>run\<close> goes on, from the state the throw left behind. Every prefix of a run is a
  run, so what holds after every run holds after each of its events, and also where the
  host stops at a throw.
\<close>

datatype event = Click string string | UserLeft User

fun handle_event :: "event \<Rightarrow> WearAHat \<Rightarrow> js_error + WearAHat" where
  "handle_event (Click hatId userId) s = wearHat hatId userId s"
| "handle_event (UserLeft user) s = userLeft user s"

fun process :: "event list \<Rightarrow> WearAHat \<Rightarrow> js_error + WearAHat" where
  "process [] s = Inr s"
| "process (e # es) s =
     (case handle_event e s of Inl err \<Rightarrow> Inl err | Inr s' \<Rightarrow> process es s')"

fun after_event :: "event \<Rightarrow> WearAHat \<Rightarrow> WearAHat" where
  "after_event (Click hatId userId) s = state_after (wearHat_body hatId userId) s"
| "after_event (UserLeft user) s = state_after (userLeft_body user) s"

fun run :: "event list \<Rightarrow> WearAHat \<Rightarrow> WearAHat" where
  "run [] s = s"
| "run (e # es) s = run es (after_event e s)"

text \<open>
  The attachments of a user in the scene: the actors created with an attachment to that
  user on which \<^verbatim>\<open>destroy()\<close> has not been called.
\<close>

definition attached_to :: "string \<Rightarrow> Context \<Rightarrow> Actor \<Rightarrow> bool" where
  "attached_to u c a =
     (map_option att_userId (actor_attachment a) = Some u \<and> actor_id a \<notin> set (destroyed c))"

definition worn_by :: "string \<Rightarrow> WearAHat \<Rightarrow> Actor list" where
  "worn_by u s = filter (attached_to u (app_context s)) (actors (app_context s))"


section \<open>The operation \<open>clear\<close> as the specification words it\<close>

text \<open>
  The source has no function of its own for clearing; the specification's \<open>clear(userId)\<close>
  reads: if an attachment exists for the user, destroy its scene object and remove the
  mapping entry; clearing a user with no attachment is a no-op.
\<close>

definition clear_spec :: "string \<Rightarrow> WearAHat \<Rightarrow> WearAHat" where
  "clear_spec u s =
     (case attachedHats s u of
        None \<Rightarrow> s
      | Some a \<Rightarrow>
          s\<lparr>app_context := Actor_destroy a (app_context s),
            attachedHats := (attachedHats s)(u := None)\<rparr>)"


section \<open>What the menu loop appends, in closed form\<close>

text \<open>
  The actor \<open>create_button\<close> adds to the scene, given the identifier it receives, and the
  buttons of a whole run of the loop. Both are derived descriptions, tied to the loop by
  \<open>create_button_eq\<close> and \<open>showHatMenu_loop_result\<close> below.
\<close>

definition button_actor :: "nat \<Rightarrow> nat \<Rightarrow> real \<Rightarrow> string \<Rightarrow> HatDescriptor \<Rightarrow> Actor" where
  "button_actor i menu x hatId hatRecord =
     (if truthy_string (resourceId hatRecord) then
        \<lparr>actor_id = i, actor_source = Library (resourceId hatRecord), actor_parentId = None,
         actor_name = None,
         actor_transform =
           \<lparr>tr_position = Some (vec3 x 1 0),
            tr_rotation = Some (euler_degrees (menu_rotation hatId hatRecord)),
            tr_scale = Some (menu_scale hatId hatRecord)\<rparr>,
         actor_attachment = None\<rparr>
      else
        \<lparr>actor_id = i, actor_source = Primitive Box (vec3 0.3 0.3 0.3) True,
         actor_parentId = Some menu, actor_name = Some hatId,
         actor_transform = \<lparr>tr_position = Some (vec3 x 0 0), tr_rotation = None, tr_scale = None\<rparr>,
         actor_attachment = None\<rparr>)"

fun menu_buttons ::
  "nat \<Rightarrow> nat \<Rightarrow> real \<Rightarrow> (string \<times> HatDescriptor) list \<Rightarrow> string list \<Rightarrow> Actor list" where
  "menu_buttons i menu x db [] = []"
| "menu_buttons i menu x db (k # ks) =
     (case map_of db k of
        None \<Rightarrow> []
      | Some d \<Rightarrow> button_actor i menu x k d # menu_buttons (Suc i) menu (x + 1.5) db ks)"

definition menu_actor :: "nat \<Rightarrow> Actor" where
  "menu_actor i =
     \<lparr>actor_id = i, actor_source = Empty, actor_parentId = None, actor_name = None,
      actor_transform = no_transform, actor_attachment = None\<rparr>"


section \<open>The invariant of the attachment manager\<close>

text \<open>
  Actor identifiers are unique, and every actor that was created with an attachment has
  either been destroyed or is the actor the mapping records for its user.
\<close>

definition recorded :: "WearAHat \<Rightarrow> Actor \<Rightarrow> bool" where
  "recorded s a =
     (case actor_attachment a of
        None \<Rightarrow> True
      | Some att \<Rightarrow>
          actor_id a \<in> set (destroyed (app_context s)) \<or>
          attachedHats s (att_userId att) = Some (actor_id a))"

definition consistent :: "WearAHat \<Rightarrow> bool" where
  "consistent s =
     (distinct (map actor_id (actors (app_context s))) \<and>
      list_all (recorded s) (actors (app_context s)))"


section \<open>Example data\<close>

text \<open>The files of the specification's merge example, with numbers for descriptors.\<close>

definition collision_files :: "nat DataFiles" where
  "collision_files =
     \<lparr>city_helmets_json = [(''b'', 3), (''c'', 4)],
      space_helmets_json = [(''b'', 3), (''c'', 4)],
      all_json = [(''b'', 3), (''c'', 4)],
      defaults_json = [(''a'', 1), (''b'', 2)]\<rparr>"

definition crown :: HatDescriptor where
  "crown = \<lparr>resourceId = Some ''artifact:1001'', scale = None, rotation = None, position = None\<rparr>"

definition tiara :: HatDescriptor where
  "tiara =
     \<lparr>resourceId = Some ''artifact:1002'', scale = Some (vec3 2 2 2),
      rotation = Some (vec3 0 90 0), position = Some (vec3 0 0.1 0)\<rparr>"

definition clear_command :: HatDescriptor where
  "clear_command =
     \<lparr>resourceId = Some ''artifact:1003'', scale = Some (vec3 1 1 1),
      rotation = Some (vec3 0 45 0), position = Some (vec3 5 5 5)\<rparr>"

definition marker :: HatDescriptor where
  "marker = \<lparr>resourceId = None, scale = None, rotation = None, position = None\<rparr>"

definition example_files :: "HatDescriptor DataFiles" where
  "example_files =
     \<lparr>city_helmets_json = [(''crown'', crown)],
      space_helmets_json = [(''tiara'', tiara)],
      all_json = [(''crown'', crown), (''tiara'', tiara), (''plain'', marker)],
      defaults_json = [(''clear!'', clear_command)]\<rparr>"

definition example_started :: WearAHat where
  "example_started =
     (case onStarted None example_files new_WearAHat of Inr s \<Rightarrow> s | Inl e \<Rightarrow> new_WearAHat)"

text \<open>
  A state in which a user wears a hat: the statements of lines 188 to 212, run on their own
  from the started session.
\<close>

definition example_worn :: WearAHat where
  "example_worn = state_after (attach_hat ''tiara'' ''u1'') example_started"


section \<open>Basic facts\<close>

lemma wearHat_other: "hatId \<noteq> ''clear!'' \<Longrightarrow> wearHat hatId userId s = Inr s"
  by (simp add: wearHat_def wearHat_body_def call_def if_then_def)

lemma delete_absent: "attachedHats s u = None \<Longrightarrow> s\<lparr>attachedHats := (attachedHats s)(u := None)\<rparr> = s"
proof -
  assume "attachedHats s u = None"
  then have "(attachedHats s)(u := None) = attachedHats s"
    by (metis fun_upd_triv)
  then show ?thesis by simp
qed

lemma clear_spec_absent: "attachedHats s u = None \<Longrightarrow> clear_spec u s = s"
  by (simp add: clear_spec_def)

text \<open>
  The two statements that clear, as lines 89 to 90 and 180 to 181 have them: they throw
  exactly when the user has no attachment and the identifier names an inherited property,
  and the throw leaves the state as it was.
\<close>

lemma clear_statements:
  "block [if_then (is_attached u) (destroy_attached u), delete_attached u] s =
     (if attachedHats s u = None \<and> u \<in> set Object_prototype_names then Thrown TypeError s
      else Normal (clear_spec u s))"
  by (cases "attachedHats s u")
     (simp_all add: if_then_def is_attached_def destroy_attached_def delete_attached_def
        clear_spec_def delete_absent get_property_def truthy_property_def)

lemma userLeft_body_result:
  "userLeft_body user s =
     (if attachedHats s (user_id user) = None \<and> user_id user \<in> set Object_prototype_names
      then Thrown TypeError s
      else Normal (clear_spec (user_id user) s))"
  unfolding userLeft_body_def by (rule clear_statements)

lemma wearHat_body_clear:
  "wearHat_body ''clear!'' u s =
     (if attachedHats s u = None \<and> u \<in> set Object_prototype_names then Thrown TypeError s
      else Returned (clear_spec u s))"
  by (cases "attachedHats s u")
     (simp_all add: wearHat_body_def if_then_def is_attached_def destroy_attached_def
        delete_attached_def return_stmt_def clear_spec_def delete_absent get_property_def
        truthy_property_def)

lemma wearHat_clear:
  "wearHat ''clear!'' u s =
     (if attachedHats s u = None \<and> u \<in> set Object_prototype_names then Inl TypeError
      else Inr (clear_spec u s))"
  by (simp add: wearHat_def call_def wearHat_body_clear)

lemma userLeft_clear:
  "userLeft user s =
     (if attachedHats s (user_id user) = None \<and> user_id user \<in> set Object_prototype_names
      then Inl TypeError
      else Inr (clear_spec (user_id user) s))"
  by (simp add: userLeft_def call_def userLeft_body_result)

lemma state_after_clear_command: "state_after (wearHat_body ''clear!'' u) s = clear_spec u s"
  by (simp add: state_after_def wearHat_body_clear clear_spec_absent)

lemma state_after_userLeft: "state_after (userLeft_body user) s = clear_spec (user_id user) s"
  by (simp add: state_after_def userLeft_body_result clear_spec_absent)

lemma state_after_other: "hatId \<noteq> ''clear!'' \<Longrightarrow> state_after (wearHat_body hatId userId) s = s"
  by (simp add: state_after_def wearHat_body_def if_then_def)

lemma clear_spec_unattached: "attachedHats (clear_spec u s) u = None"
  by (simp add: clear_spec_def split: option.splits)


lemma example_started_HatDatabase:
  "HatDatabase example_started =
     [(''crown'', crown), (''tiara'', tiara), (''plain'', marker), (''clear!'', clear_command)]"
  by code_simp


section \<open>Facts about \<^verbatim>\<open>Object.keys\<close> and \<^verbatim>\<open>Object.assign\<close>\<close>

lemma set_Object_keys: "set (Object_keys obj) = fst ` set obj"
  by (auto simp: Object_keys_def)

lemma distinct_Object_keys: "distinct (map fst obj) \<Longrightarrow> distinct (Object_keys obj)"
  by (auto simp: Object_keys_def)

lemma length_Object_keys: "length (Object_keys obj) = length obj"
proof -
  have "length (filter is_array_index (map fst obj)) +
        length (filter (\<lambda>k. \<not> is_array_index k) (map fst obj)) = length (map fst obj)"
    by (rule sum_length_filter_compl)
  then show ?thesis by (simp add: Object_keys_def)
qed

lemma Object_keys_in_dom: "set (Object_keys obj) \<subseteq> dom (map_of obj)"
  by (simp add: set_Object_keys dom_map_of_conv_image_fst)

lemma map_of_fold_assign:
  "map_of (fold (assign_property src) ks target) =
     map_of target ++ (map_of src |` (set ks - {''__proto__''}))"
proof (induction ks arbitrary: target)
  case Nil
  show ?case by simp
next
  case (Cons k ks)
  show ?case
  proof (rule ext)
    fix j
    show "map_of (fold (assign_property src) (k # ks) target) j =
          (map_of target ++ (map_of src |` (set (k # ks) - {''__proto__''}))) j"
      by (cases "map_of src k")
         (auto simp: Cons.IH assign_property_def update_conv' map_add_def restrict_map_def
            split: option.splits)
  qed
qed

lemma distinct_fold_assign:
  "distinct (map fst target) \<Longrightarrow> distinct (map fst (fold (assign_property src) ks target))"
  by (induction ks arbitrary: target)
     (auto simp: assign_property_def distinct_update split: option.splits)

lemma map_of_assign_all:
  "map_of (fold (assign_property src) (Object_keys src) target) =
     map_of target ++ (map_of src)(''__proto__'' := None)"
proof -
  have "map_of src |` (set (Object_keys src) - {''__proto__''}) = (map_of src)(''__proto__'' := None)"
  proof (rule ext)
    fix k
    show "(map_of src |` (set (Object_keys src) - {''__proto__''})) k =
          ((map_of src)(''__proto__'' := None)) k"
    proof (cases "k \<in> fst ` set src")
      case True
      then show ?thesis by (simp add: restrict_map_def set_Object_keys)
    next
      case False
      then have "map_of src k = None" by (simp add: map_of_eq_None_iff)
      then show ?thesis by (simp add: restrict_map_def)
    qed
  qed
  then show ?thesis by (simp add: map_of_fold_assign)
qed

lemma map_of_Object_assign2:
  "map_of (Object_assign [] [a, b]) = (map_of a ++ map_of b)(''__proto__'' := None)"
proof (rule ext)
  fix k
  show "map_of (Object_assign [] [a, b]) k = ((map_of a ++ map_of b)(''__proto__'' := None)) k"
    by (simp add: map_of_assign_all map_add_def split: option.splits)
qed

lemma proto_key_not_assigned:
  "Object_assign [] [[(''__proto__'', 7::nat), (''a'', 1)], [(''b'', 2), (''__proto__'', 8)]] =
     [(''a'', 1), (''b'', 2)]"
  by code_simp

lemma distinct_Object_assign:
  "distinct (map fst target) \<Longrightarrow> distinct (map fst (Object_assign target srcs))"
  by (induction srcs arbitrary: target) (auto simp: distinct_fold_assign)

lemma distinct_load_HatDatabase: "distinct (map fst (load_HatDatabase kit files))"
  by (simp add: load_HatDatabase_def distinct_Object_assign del: Object_assign.simps)


section \<open>Facts about the menu loop\<close>

lemma create_button_eq:
  "create_button menu x hatId d c =
     (length (actors c), c\<lparr>actors := actors c @ [button_actor (length (actors c)) menu x hatId d]\<rparr>)"
  by (simp add: create_button_def button_actor_def CreateFromLibrary_def CreatePrimitive_def
      create_actor_def Let_def)

lemma showHatMenu_loop_result:
  "set ks \<subseteq> dom (map_of (HatDatabase s)) \<Longrightarrow>
   showHatMenu_loop menu ks x s =
     Normal (s\<lparr>app_context := (app_context s)
       \<lparr>actors := actors (app_context s) @
          menu_buttons (length (actors (app_context s))) menu x (HatDatabase s) ks,
        behaviors := behaviors (app_context s) @
          zip [length (actors (app_context s))..<length (actors (app_context s)) + length ks] ks\<rparr>\<rparr>)"
proof (induction ks arbitrary: x s)
  case Nil
  show ?case by simp
next
  case (Cons k ks)
  from Cons.prems obtain d where d: "map_of (HatDatabase s) k = Some d"
    by auto
  let ?n = "length (actors (app_context s))"
  let ?s1 = "s\<lparr>app_context := setBehavior_onClick ?n k
      ((app_context s)\<lparr>actors := actors (app_context s) @ [button_actor ?n menu x k d]\<rparr>)\<rparr>"
  have sub: "set ks \<subseteq> dom (map_of (HatDatabase ?s1))"
    using Cons.prems by simp
  have step: "showHatMenu_loop menu (k # ks) x s = showHatMenu_loop menu ks (x + 1.5) ?s1"
    by (simp add: d create_button_eq)
  have upt: "[?n..<Suc (?n + length ks)] = ?n # [Suc ?n..<Suc (?n + length ks)]"
    using upt_conv_Cons [of ?n "Suc (?n + length ks)"] by (simp del: upt_Suc)
  show ?case
    unfolding step Cons.IH [OF sub]
    by (simp add: d setBehavior_onClick_def upt del: upt_Suc)
qed

lemma showHatMenu_result:
  "showHatMenu s =
     Inr (s\<lparr>app_context := (app_context s)
       \<lparr>actors := actors (app_context s) @
          menu_actor (length (actors (app_context s))) #
          menu_buttons (Suc (length (actors (app_context s)))) (length (actors (app_context s))) 0
            (HatDatabase s) (Object_keys (HatDatabase s)),
        behaviors := behaviors (app_context s) @
          zip [Suc (length (actors (app_context s)))..<
               Suc (length (actors (app_context s))) + length (HatDatabase s)]
            (Object_keys (HatDatabase s))\<rparr>\<rparr>)"
proof -
  let ?n = "length (actors (app_context s))"
  let ?s0 = "s\<lparr>app_context := (app_context s)\<lparr>actors := actors (app_context s) @ [menu_actor ?n]\<rparr>\<rparr>"
  have sub: "set (Object_keys (HatDatabase s)) \<subseteq> dom (map_of (HatDatabase ?s0))"
    using Object_keys_in_dom [of "HatDatabase s"] by simp
  have "showHatMenu_body s = showHatMenu_loop ?n (Object_keys (HatDatabase s)) 0 ?s0"
    by (simp add: showHatMenu_body_def CreateEmpty_def create_actor_def menu_actor_def Let_def)
  then show ?thesis
    unfolding showHatMenu_def call_def
    by (simp add: showHatMenu_loop_result [OF sub] length_Object_keys)
qed

lemma menu_buttons_nth:
  "set ks \<subseteq> dom (map_of db) \<Longrightarrow> i < length ks \<Longrightarrow>
   length (menu_buttons n menu x db ks) = length ks \<and>
   menu_buttons n menu x db ks ! i =
     button_actor (n + i) menu (x + 1.5 * real i) (ks ! i) (the (map_of db (ks ! i)))"
proof (induction ks arbitrary: n x i)
  case Nil
  then show ?case by simp
next
  case (Cons k ks)
  from Cons.prems obtain d where d: "map_of db k = Some d"
    by auto
  have sub: "set ks \<subseteq> dom (map_of db)"
    using Cons.prems by simp
  show ?case
  proof (cases i)
    case 0
    have "length (menu_buttons (Suc n) menu (x + 1.5) db ks) = length ks"
    proof (cases ks)
      case Nil
      then show ?thesis by simp
    next
      case (Cons k' ks')
      then have "0 < length ks" by simp
      from Cons.IH [OF sub this] show ?thesis by simp
    qed
    then show ?thesis using 0 by (simp add: d)
  next
    case (Suc j)
    then have j: "j < length ks" using Cons.prems by simp
    have x: "x + 1.5 + 1.5 * real j = x + 1.5 * real (Suc j)"
      by (simp add: algebra_simps)
    have "menu_buttons (Suc n) menu (x + 1.5) db ks ! j =
            button_actor (Suc n + j) menu (x + 1.5 + 1.5 * real j) (ks ! j)
              (the (map_of db (ks ! j)))"
      using Cons.IH [OF sub j, of "Suc n" "x + 1.5"] by blast
    then have "menu_buttons n menu x db (k # ks) ! Suc j =
            button_actor (n + Suc j) menu (x + 1.5 * real (Suc j)) ((k # ks) ! Suc j)
              (the (map_of db ((k # ks) ! Suc j)))"
      unfolding x by (simp add: d)
    moreover have "length (menu_buttons n menu x db (k # ks)) = length (k # ks)"
      using Cons.IH [OF sub j, of "Suc n" "x + 1.5"] by (simp add: d)
    ultimately show ?thesis
      unfolding Suc by blast
  qed
qed

lemma length_menu_buttons:
  "set ks \<subseteq> dom (map_of db) \<Longrightarrow> length (menu_buttons n menu x db ks) = length ks"
  by (induction ks arbitrary: n x) auto

lemma buttons_unattached:
  "list_all (\<lambda>a. actor_attachment a = None) (menu_buttons n menu x db ks)"
  by (induction ks arbitrary: n x) (auto simp: button_actor_def split: option.splits)

lemma onStarted_result:
  "onStarted kit files s =
     Inr (s\<lparr>HatDatabase := load_HatDatabase kit files,
          app_context := (app_context s)
       \<lparr>actors := actors (app_context s) @
          menu_actor (length (actors (app_context s))) #
          menu_buttons (Suc (length (actors (app_context s)))) (length (actors (app_context s))) 0
            (load_HatDatabase kit files) (Object_keys (load_HatDatabase kit files)),
        behaviors := behaviors (app_context s) @
          zip [Suc (length (actors (app_context s)))..<
               Suc (length (actors (app_context s))) + length (load_HatDatabase kit files)]
            (Object_keys (load_HatDatabase kit files))\<rparr>\<rparr>)"
  by (simp add: onStarted_def started_def showHatMenu_result)

lemma started_unattached:
  assumes "onStarted kit files new_WearAHat = Inr s"
  shows "attachedHats s = Map.empty"
    and "destroyed (app_context s) = []"
    and "list_all (\<lambda>a. actor_attachment a = None) (actors (app_context s))"
  using assms
  by (auto simp: onStarted_result new_WearAHat_def menu_actor_def buttons_unattached)


section \<open>Facts about the example states\<close>

lemma example_started_eq: "onStarted None example_files new_WearAHat = Inr example_started"
  by (simp add: example_started_def onStarted_result)

lemma example_started_attachedHats: "attachedHats example_started = Map.empty"
  by (rule started_unattached(1) [OF example_started_eq])

lemma example_started_actors:
  "map actor_attachment (actors (app_context example_started)) = [None, None, None, None, None]"
  by code_simp

lemma example_started_destroyed: "destroyed (app_context example_started) = []"
  by (rule started_unattached(2) [OF example_started_eq])

lemma example_started_length: "length (actors (app_context example_started)) = 5"
  by code_simp

lemma lookup_own: "map_of (HatDatabase s) hatId = Some d \<Longrightarrow> lookup_hatRecord s hatId = Some d"
  by (simp add: lookup_hatRecord_def get_property_def)

lemma example_tiara: "lookup_hatRecord example_started ''tiara'' = Some tiara"
  by (rule lookup_own) (simp add: example_started_HatDatabase)

lemma example_worn_attachedHats: "attachedHats example_worn = [''u1'' \<mapsto> 5]"
  by (simp add: example_worn_def state_after_def attach_hat_def example_tiara
      CreateFromLibrary_def create_actor_def Let_def store_attached_def
      example_started_attachedHats example_started_length)

lemma example_worn_destroyed: "destroyed (app_context example_worn) = []"
  by (simp add: example_worn_def state_after_def attach_hat_def example_tiara
      CreateFromLibrary_def create_actor_def Let_def example_started_destroyed)



section \<open>The attachment manager: clearing\<close>

text \<open>
  A user identifier that names an inherited property, for a user without an attachment:
  the condition of lines 89 and 180 is true, the call of \<^verbatim>\<open>destroy\<close> throws, and the state
  is as it was. No identifier the host issues is such a name.
\<close>

lemma clear_inherited_id_throws:
  "wearHat ''clear!'' ''toString'' example_started = Inl TypeError \<and>
   userLeft \<lparr>user_id = ''__proto__''\<rparr> example_started = Inl TypeError \<and>
   state_after (wearHat_body ''clear!'' ''toString'') example_started = example_started \<and>
   state_after (userLeft_body \<lparr>user_id = ''__proto__''\<rparr>) example_started = example_started"
  by (simp add: wearHat_clear userLeft_clear state_after_clear_command state_after_userLeft
      example_started_attachedHats Object_prototype_names_def clear_spec_absent)

text \<open>
  C4. For every user identifier and every prior state, the state that selecting the clear
  command (\<open>wearHat ''clear!''\<close>) leaves behind and the state that the departure of the
  user (\<open>userLeft\<close>) leaves behind are each exactly the state the specification's
  \<open>clear\<close> describes: an existing attachment is destroyed and the user's entry removed,
  and a state without an attachment for the user is left as it is. Both calls return
  normally with that state, except for a user without an attachment whose identifier names
  a property inherited from \<^verbatim>\<open>Object.prototype\<close>: there both throw a \<^verbatim>\<open>TypeError\<close>
  before anything is changed, so the state they leave is still that of \<open>clear\<close>.
\<close>

theorem clear_command_and_departure_refine_clear:
  "state_after (wearHat_body ''clear!'' u) s = clear_spec u s \<and>
   state_after (userLeft_body user) s = clear_spec (user_id user) s \<and>
   wearHat ''clear!'' u s =
     (if attachedHats s u = None \<and> u \<in> set Object_prototype_names then Inl TypeError
      else Inr (clear_spec u s)) \<and>
   userLeft user s =
     (if attachedHats s (user_id user) = None \<and> user_id user \<in> set Object_prototype_names
      then Inl TypeError
      else Inr (clear_spec (user_id user) s))"
proof (intro conjI)
  show "state_after (wearHat_body ''clear!'' u) s = clear_spec u s"
    by (rule state_after_clear_command)
  show "state_after (userLeft_body user) s = clear_spec (user_id user) s"
    by (rule state_after_userLeft)
  show "wearHat ''clear!'' u s =
     (if attachedHats s u = None \<and> u \<in> set Object_prototype_names then Inl TypeError
      else Inr (clear_spec u s))"
    by (rule wearHat_clear)
  show "userLeft user s =
     (if attachedHats s (user_id user) = None \<and> user_id user \<in> set Object_prototype_names
      then Inl TypeError
      else Inr (clear_spec (user_id user) s))"
    by (rule userLeft_clear)
qed

theorem clear_command_and_departure_refine_clear_witness:
  "state_after (wearHat_body ''clear!'' ''u1'') example_worn = clear_spec ''u1'' example_worn \<and>
   state_after (userLeft_body \<lparr>user_id = ''u1''\<rparr>) example_worn = clear_spec ''u1'' example_worn \<and>
   wearHat ''clear!'' ''u1'' example_worn = Inr (clear_spec ''u1'' example_worn) \<and>
   userLeft \<lparr>user_id = ''u1''\<rparr> example_worn = Inr (clear_spec ''u1'' example_worn) \<and>
   attachedHats (clear_spec ''u1'' example_worn) ''u1'' = None \<and>
   destroyed (app_context (clear_spec ''u1'' example_worn)) = [5] \<and>
   clear_spec ''u2'' example_worn = example_worn"
  using clear_command_and_departure_refine_clear [of "''u1''" example_worn "\<lparr>user_id = ''u1''\<rparr>"]
  by (simp add: clear_spec_def example_worn_attachedHats example_worn_destroyed Actor_destroy_def)





section \<open>The attachment manager: selecting a hat\<close>

text \<open>
  C10. For every user and every identifier other than the literal \<^verbatim>\<open>clear!\<close>, \<open>wearHat\<close>
  ends without an exception in the state it started from (the state holds the mapping and
  the scene log): the mapping is unchanged and no actor is created or destroyed. The
  statements that attach a hat stand after the \<^verbatim>\<open>return\<close> of the clear branch, inside
  it: whatever statements follow that \<^verbatim>\<open>return\<close>, the method computes the same
  result, for every identifier.
\<close>

theorem wearHat_attach_unreachable:
  "(hatId \<noteq> ''clear!'' \<longrightarrow> wearHat hatId userId s = Inr s) \<and>
   (\<forall>rest.
      call (block [
        if_then (\<lambda>_. hatId = ''clear!'')
          (block ([if_then (is_attached userId) (destroy_attached userId),
                   delete_attached userId,
                   return_stmt] @ rest))]) s =
      wearHat hatId userId s)"
proof (intro conjI impI allI)
  assume "hatId \<noteq> ''clear!''"
  then show "wearHat hatId userId s = Inr s" by (rule wearHat_other)
next
  fix rest
  show "call (block [
        if_then (\<lambda>_. hatId = ''clear!'')
          (block ([if_then (is_attached userId) (destroy_attached userId),
                   delete_attached userId,
                   return_stmt] @ rest))]) s =
      wearHat hatId userId s"
    by (cases "attachedHats s userId")
       (simp_all add: wearHat_def wearHat_body_def call_def if_then_def is_attached_def
          destroy_attached_def delete_attached_def return_stmt_def get_property_def
          truthy_property_def)
qed

theorem wearHat_attach_unreachable_witness:
  "''crown'' \<noteq> ''clear!'' \<and>
   map_of (HatDatabase example_started) ''crown'' = Some crown \<and>
   wearHat ''crown'' ''u1'' example_started = Inr example_started \<and>
   call (block [
     if_then (\<lambda>_. ''crown'' = ''clear!'')
       (block ([if_then (is_attached ''u1'') (destroy_attached ''u1''),
                delete_attached ''u1'',
                return_stmt] @ []))]) example_started =
   Inr example_started"
  using wearHat_attach_unreachable [of "''crown''" "''u1''" example_started]
  by (simp add: example_started_HatDatabase)




text \<open>
  C1 says that selecting a hat of the catalog creates an attachment and stores it, and that
  a second selection replaces the first. On the started example session, where the catalog
  holds \<^verbatim>\<open>crown\<close> and \<^verbatim>\<open>tiara\<close> and nobody wears anything, the code does neither:
  the two selections in a row return the state unchanged, with no entry for the user, no
  attached actor in the scene, the five actors of the menu only, and nothing destroyed.
\<close>

theorem select_creates_no_attachment:
  "map_of (HatDatabase example_started) ''crown'' = Some crown \<and>
   map_of (HatDatabase example_started) ''tiara'' = Some tiara \<and>
   attachedHats example_started ''u1'' = None \<and>
   wearHat ''crown'' ''u1'' example_started = Inr example_started \<and>
   process [Click ''crown'' ''u1'', Click ''tiara'' ''u1''] example_started = Inr example_started \<and>
   worn_by ''u1'' example_started = [] \<and>
   length (actors (app_context example_started)) = 5 \<and>
   destroyed (app_context example_started) = []"
proof -
  have "filter (attached_to ''u1'' (app_context example_started))
          (actors (app_context example_started)) = []"
    using started_unattached(3) [OF example_started_eq]
    by (auto simp: filter_empty_conv attached_to_def list_all_iff)
  then show ?thesis
    by (simp add: example_started_HatDatabase example_started_attachedHats wearHat_other
        worn_by_def example_started_length example_started_destroyed)
qed

text \<open>
  The statements of lines 188 to 212, run on their own on an identifier of the catalog,
  create an actor attached to the user's head and record it for the user. Its transform
  takes each component from the descriptor when it has one and falls back to position
  (0,0,0), scale (1.5,1.5,1.5) and rotation (0,180,0) degrees otherwise.
\<close>

lemma attach_hat_transform:
  "map_of (HatDatabase s) hatId = Some d \<Longrightarrow> userId \<noteq> ''__proto__'' \<Longrightarrow>
   \<exists>s'. attach_hat hatId userId s = Normal s' \<and>
     attachedHats s' userId = Some (length (actors (app_context s))) \<and>
     actors (app_context s') = actors (app_context s) @
       [\<lparr>actor_id = length (actors (app_context s)),
         actor_source = Library (resourceId d), actor_parentId = None, actor_name = None,
         actor_transform =
           \<lparr>tr_position = Some (case position d of None \<Rightarrow> vec3 0 0 0 | Some p \<Rightarrow> p),
            tr_rotation =
              Some (euler_degrees (case rotation d of None \<Rightarrow> vec3 0 180 0 | Some r \<Rightarrow> r)),
            tr_scale = Some (case scale d of None \<Rightarrow> vec3 1.5 1.5 1.5 | Some v \<Rightarrow> v)\<rparr>,
         actor_attachment = Some \<lparr>attachPoint = ''head'', att_userId = userId\<rparr>\<rparr>]"
  by (simp add: attach_hat_def lookup_own store_attached_def CreateFromLibrary_def
      create_actor_def Let_def resolve_position_def resolve_rotation_def resolve_scale_def
      split: option.splits)

text \<open>
  C7 is about the transform \<open>wearHat\<close> computes when it attaches. The descriptor
  \<^verbatim>\<open>crown\<close> of the example catalog omits position, scale and rotation; selecting it
  computes no transform at all, since no statement of \<open>attach_hat\<close> runs: the scene after
  the selection holds no actor with an attachment and no actor beyond those of the menu.
\<close>

theorem select_resolves_no_transform:
  "map_of (HatDatabase example_started) ''crown'' = Some crown \<and>
   position crown = None \<and> scale crown = None \<and> rotation crown = None \<and>
   (case wearHat ''crown'' ''u2'' example_started of
      Inl e \<Rightarrow> False
    | Inr s' \<Rightarrow>
        map actor_attachment (actors (app_context s')) = [None, None, None, None, None] \<and>
        attachedHats s' ''u2'' = None)"
  by (simp add: example_started_HatDatabase wearHat_other example_started_actors
      example_started_attachedHats crown_def)


section \<open>At most one attachment per user\<close>

lemma after_event_result:
  "after_event e s =
     (case e of
        Click hatId userId \<Rightarrow> if hatId = ''clear!'' then clear_spec userId s else s
      | UserLeft user \<Rightarrow> clear_spec (user_id user) s)"
  by (cases e) (simp_all add: state_after_clear_command state_after_other state_after_userLeft)

lemma clear_spec_consistent:
  assumes "consistent s"
  shows "consistent (clear_spec u s)"
proof (cases "attachedHats s u")
  case None
  with assms show ?thesis by (simp add: clear_spec_def)
next
  case (Some a)
  have "recorded (clear_spec u s) b" if "recorded s b" for b
    using that Some
    by (auto simp: recorded_def clear_spec_def Actor_destroy_def split: option.splits)
  with assms show ?thesis
    by (auto simp: consistent_def list_all_iff clear_spec_def Some Actor_destroy_def)
qed

lemma after_event_consistent: "consistent s \<Longrightarrow> consistent (after_event e s)"
  by (auto simp: after_event_result clear_spec_consistent split: event.splits)

lemma run_consistent: "consistent s \<Longrightarrow> consistent (run evs s)"
  by (induction evs arbitrary: s) (simp_all add: after_event_consistent)

lemma filter_same_key:
  "distinct (map f xs) \<Longrightarrow> (\<And>x. x \<in> set xs \<Longrightarrow> P x \<Longrightarrow> f x = c) \<Longrightarrow>
   length (filter P xs) \<le> 1"
proof (induction xs)
  case Nil
  show ?case by simp
next
  case (Cons x xs)
  show ?case
  proof (cases "P x")
    case False
    with Cons show ?thesis by simp
  next
    case True
    then have fx: "f x = c" using Cons.prems(2) by simp
    have "filter P xs = []"
    proof (rule ccontr)
      assume "filter P xs \<noteq> []"
      then obtain y where y: "y \<in> set xs" "P y"
        by (auto simp: filter_empty_conv)
      then have fy: "f y = c" using Cons.prems(2) by simp
      have "f x \<notin> f ` set xs" using Cons.prems(1) by simp
      moreover have "f y \<in> f ` set xs" using y(1) by simp
      ultimately show False using fx fy by simp
    qed
    with True show ?thesis by simp
  qed
qed

lemma consistent_worn_recorded:
  assumes "consistent s" and "a \<in> set (worn_by u s)"
  shows "attachedHats s u = Some (actor_id a)"
proof -
  from assms(2) have a: "a \<in> set (actors (app_context s))"
    and att: "attached_to u (app_context s) a"
    by (simp_all add: worn_by_def)
  from assms(1) a have "recorded s a"
    by (simp add: consistent_def list_all_iff)
  with att show ?thesis
    by (auto simp: recorded_def attached_to_def split: option.splits)
qed

lemma consistent_at_most_one:
  assumes "consistent s"
  shows "length (worn_by u s) \<le> 1"
  unfolding worn_by_def
proof (rule filter_same_key)
  show "distinct (map actor_id (actors (app_context s)))"
    using assms by (simp add: consistent_def)
next
  fix a
  assume "a \<in> set (actors (app_context s))" and "attached_to u (app_context s) a"
  then have "a \<in> set (worn_by u s)" by (simp add: worn_by_def)
  from consistent_worn_recorded [OF assms this]
  show "actor_id a = the (attachedHats s u)" by simp
qed

lemma menu_buttons_ids:
  "set ks \<subseteq> dom (map_of db) \<Longrightarrow>
   map actor_id (menu_buttons n menu x db ks) = [n..<n + length ks]"
proof (induction ks arbitrary: n x)
  case Nil
  show ?case by simp
next
  case (Cons k ks)
  from Cons.prems obtain d where d: "map_of db k = Some d" by auto
  have sub: "set ks \<subseteq> dom (map_of db)" using Cons.prems by simp
  have upt: "[n..<Suc (n + length ks)] = n # [Suc n..<Suc (n + length ks)]"
    using upt_conv_Cons [of n "Suc (n + length ks)"] by (simp del: upt_Suc)
  show ?case
    using Cons.IH [OF sub, of "Suc n" "x + 1.5"]
    by (simp add: d button_actor_def upt del: upt_Suc)
qed

lemma started_consistent:
  assumes "onStarted kit files new_WearAHat = Inr s"
  shows "consistent s"
proof -
  let ?db = "load_HatDatabase kit files"
  have ids: "map actor_id (menu_buttons (Suc 0) 0 0 ?db (Object_keys ?db)) =
             [Suc 0..<Suc 0 + length (Object_keys ?db)]"
    by (rule menu_buttons_ids) (rule Object_keys_in_dom)
  have "map actor_id (actors (app_context s)) = 0 # [Suc 0..<Suc 0 + length (Object_keys ?db)]"
    using assms ids by (auto simp: onStarted_result new_WearAHat_def menu_actor_def)
  then have "distinct (map actor_id (actors (app_context s)))"
    by (simp del: upt_Suc)
  moreover have "list_all (recorded s) (actors (app_context s))"
    using started_unattached(3) [OF assms] by (simp add: list_all_iff recorded_def)
  ultimately show ?thesis by (simp add: consistent_def)
qed

lemma example_worn_consistent: "consistent example_worn"
proof -
  have c: "consistent example_started"
    by (rule started_consistent [OF example_started_eq])
  have "''u1'' \<noteq> ''__proto__''" by simp
  from attach_hat_transform [of example_started "''tiara''" tiara "''u1''", OF _ this]
  obtain s' where s': "attach_hat ''tiara'' ''u1'' example_started = Normal s'"
    and m: "attachedHats s' ''u1'' = Some 5"
    and a: "actors (app_context s') = actors (app_context example_started) @
       [\<lparr>actor_id = 5,
         actor_source = Library (resourceId tiara), actor_parentId = None, actor_name = None,
         actor_transform =
           \<lparr>tr_position = Some (case position tiara of None \<Rightarrow> vec3 0 0 0 | Some p \<Rightarrow> p),
            tr_rotation =
              Some (euler_degrees (case rotation tiara of None \<Rightarrow> vec3 0 180 0 | Some r \<Rightarrow> r)),
            tr_scale = Some (case scale tiara of None \<Rightarrow> vec3 1.5 1.5 1.5 | Some v \<Rightarrow> v)\<rparr>,
         actor_attachment = Some \<lparr>attachPoint = ''head'', att_userId = ''u1''\<rparr>\<rparr>]"
    by (auto simp: example_started_HatDatabase example_started_length)
  have w: "example_worn = s'" by (simp add: example_worn_def state_after_def s')
  have ids: "map actor_id (actors (app_context example_started)) = [0, 1, 2, 3, 4]"
    by code_simp
  have "list_all (recorded s') (actors (app_context example_started))"
    using started_unattached(3) [OF example_started_eq] by (simp add: list_all_iff recorded_def)
  then show ?thesis
    unfolding w by (simp add: consistent_def a ids recorded_def m)
qed

text \<open>
  C2. The session starts (for every kit parameter and every content of the data files)
  without an exception, and from the state it starts in, after every finite sequence of
  clicks (by any user identifier, on any identifier, the clear command included) and
  departures, handlers that throw included, the scene holds at most one live attachment
  for each user, and that one is the actor the mapping records for the user. The same
  holds from every state that satisfies the invariant, the states in which users wear hats
  among them, and the events preserve the invariant. The sequence is arbitrary, so this
  holds after each event of a run.
\<close>

theorem at_most_one_attachment:
  "(\<exists>s0. onStarted kit files new_WearAHat = Inr s0 \<and>
      length (worn_by u (run evs s0)) \<le> 1 \<and>
      list_all (\<lambda>a. attachedHats (run evs s0) u = Some (actor_id a)) (worn_by u (run evs s0))) \<and>
   (consistent s \<longrightarrow>
      consistent (run evs s) \<and>
      length (worn_by u (run evs s)) \<le> 1 \<and>
      list_all (\<lambda>a. attachedHats (run evs s) u = Some (actor_id a)) (worn_by u (run evs s)))"
proof -
  have inv: "length (worn_by u (run evs t)) \<le> 1 \<and>
      list_all (\<lambda>a. attachedHats (run evs t) u = Some (actor_id a)) (worn_by u (run evs t))"
    if "consistent t" for t
  proof -
    from that have c: "consistent (run evs t)"
      by (rule run_consistent)
    then have "length (worn_by u (run evs t)) \<le> 1"
      by (rule consistent_at_most_one)
    moreover from c have
      "list_all (\<lambda>a. attachedHats (run evs t) u = Some (actor_id a)) (worn_by u (run evs t))"
      by (simp add: list_all_iff consistent_worn_recorded)
    ultimately show ?thesis by simp
  qed
  obtain s0 where s0: "onStarted kit files new_WearAHat = Inr s0"
    by (simp add: onStarted_result)
  then have "consistent s0" by (rule started_consistent)
  from inv [OF this] s0 have first:
    "\<exists>s0. onStarted kit files new_WearAHat = Inr s0 \<and>
      length (worn_by u (run evs s0)) \<le> 1 \<and>
      list_all (\<lambda>a. attachedHats (run evs s0) u = Some (actor_id a)) (worn_by u (run evs s0))"
    by blast
  show ?thesis
  proof (intro conjI impI)
    show "\<exists>s0. onStarted kit files new_WearAHat = Inr s0 \<and>
      length (worn_by u (run evs s0)) \<le> 1 \<and>
      list_all (\<lambda>a. attachedHats (run evs s0) u = Some (actor_id a)) (worn_by u (run evs s0))"
      by (rule first)
  next
    assume "consistent s"
    then show "consistent (run evs s)" by (rule run_consistent)
  next
    assume "consistent s"
    from inv [OF this] show "length (worn_by u (run evs s)) \<le> 1" by simp
  next
    assume "consistent s"
    from inv [OF this]
    show "list_all (\<lambda>a. attachedHats (run evs s) u = Some (actor_id a)) (worn_by u (run evs s))"
      by simp
  qed
qed

text \<open>
  In the witness a user who wears a hat selects another hat, a second user and a user
  identifier that names an inherited property clear, and the first user leaves: the one
  attachment of the first user is there until the departure destroys it.
\<close>

theorem at_most_one_attachment_witness:
  "consistent example_worn \<and>
   map actor_id (worn_by ''u1'' example_worn) = [5] \<and>
   map actor_id (worn_by ''u1''
     (run [Click ''crown'' ''u1'', Click ''clear!'' ''u2'', Click ''clear!'' ''constructor'']
        example_worn)) = [5] \<and>
   length (worn_by ''u1''
     (run [Click ''crown'' ''u1'', Click ''clear!'' ''u2'', Click ''clear!'' ''constructor'',
           UserLeft \<lparr>user_id = ''u1''\<rparr>] example_worn)) \<le> 1 \<and>
   worn_by ''u1''
     (run [Click ''crown'' ''u1'', Click ''clear!'' ''u2'', Click ''clear!'' ''constructor'',
           UserLeft \<lparr>user_id = ''u1''\<rparr>] example_worn) = [] \<and>
   destroyed (app_context
     (run [Click ''crown'' ''u1'', Click ''clear!'' ''u2'', Click ''clear!'' ''constructor'',
           UserLeft \<lparr>user_id = ''u1''\<rparr>] example_worn)) = [5]"
proof -
  let ?evs = "[Click ''crown'' ''u1'', Click ''clear!'' ''u2'', Click ''clear!'' ''constructor'',
           UserLeft \<lparr>user_id = ''u1''\<rparr>]"
  have c: "consistent example_worn"
    by (rule example_worn_consistent)
  have u2: "attachedHats example_worn ''u2'' = None"
    and co: "attachedHats example_worn ''constructor'' = None"
    by (simp_all add: example_worn_attachedHats)
  have r3: "run [Click ''crown'' ''u1'', Click ''clear!'' ''u2'', Click ''clear!'' ''constructor'']
        example_worn = example_worn"
    by (simp add: after_event_result clear_spec_absent u2 co)
  have r4: "run ?evs example_worn = clear_spec ''u1'' example_worn"
    by (simp add: after_event_result clear_spec_absent u2 co)
  have w: "map actor_id (worn_by ''u1'' example_worn) = [5]"
    by code_simp
  have e: "worn_by ''u1'' (clear_spec ''u1'' example_worn) = []"
    by code_simp
  have d: "destroyed (app_context (clear_spec ''u1'' example_worn)) = [5]"
    by (simp add: clear_spec_def example_worn_attachedHats example_worn_destroyed
        Actor_destroy_def)
  from at_most_one_attachment [of None example_files "''u1''" ?evs example_worn] c
  have "length (worn_by ''u1'' (run ?evs example_worn)) \<le> 1"
    by blast
  with c w e d show ?thesis
    unfolding r3 r4 by simp
qed

text \<open>
  From the started session itself no handler ever attaches anything, so every run ends in
  the state the session started in, whatever the events.
\<close>

lemma run_from_started:
  "onStarted kit files new_WearAHat = Inr s0 \<Longrightarrow> run evs s0 = s0"
proof (induction evs)
  case Nil
  show ?case by simp
next
  case (Cons e evs)
  from Cons.prems have "attachedHats s0 = Map.empty"
    by (rule started_unattached(1))
  then have "after_event e s0 = s0"
    by (simp add: after_event_result clear_spec_absent split: event.splits)
  with Cons show ?case by simp
qed


section \<open>Loading the catalog\<close>

text \<open>
  C3 as the specification states it: the kit's entry wins on a key collision, so that
  defaults \<open>{a:1, b:2}\<close> and kit data \<open>{b:3, c:4}\<close> load as \<open>{a:1, b:3, c:4}\<close>. The
  code passes the kit's file to \<^verbatim>\<open>Object.assign\<close> before the defaults: on these files
  the loaded catalog is \<open>{b:2, c:4, a:1}\<close>, and it maps \<open>b\<close> to the value of the defaults.
\<close>

theorem kit_entry_does_not_win:
  "load_HatDatabase (Some ''city_helmets'') collision_files = [(''b'', 2), (''c'', 4), (''a'', 1)] \<and>
   map_of (load_HatDatabase (Some ''city_helmets'') collision_files) ''b'' \<noteq> Some 3 \<and>
   map_of (load_HatDatabase (Some ''city_helmets'') collision_files) \<noteq>
     map_of [(''a'', 1), (''b'', 3), (''c'', 4)]"
proof -
  have l: "load_HatDatabase (Some ''city_helmets'') collision_files =
           [(''b'', 2), (''c'', 4), (''a'', 1)]"
    by code_simp
  have "map_of [(''b'', 2::nat), (''c'', 4), (''a'', 1)] ''b'' \<noteq>
        map_of [(''a'', 1), (''b'', 3), (''c'', 4)] ''b''"
    by simp
  then have "map_of [(''b'', 2::nat), (''c'', 4), (''a'', 1)] \<noteq>
        map_of [(''a'', 1), (''b'', 3), (''c'', 4)]"
    by metis
  then show ?thesis by (simp add: l)
qed

text \<open>
  C3, amended. For every kit selection and all data files in which \<^verbatim>\<open>__proto__\<close> is not
  a key, the loaded catalog is the merge of the kit's file (the file of
  \<^verbatim>\<open>city_helmets\<close> or \<^verbatim>\<open>space_helmets\<close> when the parameter names one of them, the
  combined file otherwise) applied first and the shared defaults applied second: a key of
  the defaults has the value of the defaults, every other key the value of the kit's file,
  and no key occurs twice. On defaults \<open>{a:1, b:2}\<close> and kit data \<open>{b:3, c:4}\<close> the
  catalog is \<open>{b:2, c:4, a:1}\<close>.
\<close>

theorem load_HatDatabase_defaults_win:
  assumes "''__proto__'' \<notin> fst ` set
             (if kit = Some ''city_helmets'' then city_helmets_json files
              else if kit = Some ''space_helmets'' then space_helmets_json files
              else all_json files)"
    and "''__proto__'' \<notin> fst ` set (defaults_json files)"
  shows "map_of (load_HatDatabase kit files) =
     map_of (if kit = Some ''city_helmets'' then city_helmets_json files
             else if kit = Some ''space_helmets'' then space_helmets_json files
             else all_json files) ++
     map_of (defaults_json files) \<and>
   (\<forall>k v. map_of (defaults_json files) k = Some v \<longrightarrow>
      map_of (load_HatDatabase kit files) k = Some v) \<and>
   (\<forall>k. map_of (defaults_json files) k = None \<longrightarrow>
      map_of (load_HatDatabase kit files) k =
        map_of (if kit = Some ''city_helmets'' then city_helmets_json files
                else if kit = Some ''space_helmets'' then space_helmets_json files
                else all_json files) k) \<and>
   distinct (map fst (load_HatDatabase kit files)) \<and>
   load_HatDatabase kit collision_files = [(''b'', 2), (''c'', 4), (''a'', 1)]"
proof -
  let ?kit = "if kit = Some ''city_helmets'' then city_helmets_json files
              else if kit = Some ''space_helmets'' then space_helmets_json files
              else all_json files"
  have "map_of ?kit ''__proto__'' = None" and "map_of (defaults_json files) ''__proto__'' = None"
    using assms by (simp_all only: map_of_eq_None_iff not_False_eq_True)
  then have "(map_of ?kit ++ map_of (defaults_json files)) ''__proto__'' = None"
    by (simp add: map_add_def)
  then have "(map_of ?kit ++ map_of (defaults_json files))(''__proto__'' := None) =
             map_of ?kit ++ map_of (defaults_json files)"
    by (metis fun_upd_triv)
  moreover have "map_of (load_HatDatabase kit files) =
     (map_of ?kit ++ map_of (defaults_json files))(''__proto__'' := None)"
    by (simp add: load_HatDatabase_def map_of_Object_assign2 del: Object_assign.simps)
  ultimately have m: "map_of (load_HatDatabase kit files) =
     map_of ?kit ++ map_of (defaults_json files)"
    by simp
  have c: "Object_assign [] [[(''b'', 3::nat), (''c'', 4)], [(''a'', 1), (''b'', 2)]] =
           [(''b'', 2), (''c'', 4), (''a'', 1)]"
    by code_simp
  have "load_HatDatabase kit collision_files = [(''b'', 2), (''c'', 4), (''a'', 1)]"
    by (simp only: load_HatDatabase_def collision_files_def DataFiles.select_convs c if_cancel)
  then show ?thesis
    unfolding m by (simp add: distinct_load_HatDatabase map_add_def)
qed

theorem load_HatDatabase_defaults_win_witness:
  "''__proto__'' \<notin> fst ` set (city_helmets_json collision_files) \<and>
   ''__proto__'' \<notin> fst ` set (defaults_json collision_files) \<and>
   map_of (defaults_json collision_files) ''b'' = Some 2 \<and>
   map_of (city_helmets_json collision_files) ''b'' = Some 3 \<and>
   map_of (load_HatDatabase (Some ''city_helmets'') collision_files) ''b'' = Some 2 \<and>
   map_of (defaults_json collision_files) ''c'' = None \<and>
   map_of (load_HatDatabase (Some ''city_helmets'') collision_files) ''c'' = Some 4"
proof -
  have a: "''__proto__'' \<notin> fst ` set
             (if Some ''city_helmets'' = Some ''city_helmets'' then city_helmets_json collision_files
              else if Some ''city_helmets'' = Some ''space_helmets''
                then space_helmets_json collision_files
              else all_json collision_files)"
    by (simp add: collision_files_def)
  have b: "''__proto__'' \<notin> fst ` set (defaults_json collision_files)"
    by (simp add: collision_files_def)
  from load_HatDatabase_defaults_win [OF a b] a b show ?thesis
    by (simp add: collision_files_def)
qed

text \<open>
  A data file with the key \<^verbatim>\<open>__proto__\<close>, holding a descriptor: the key is not loaded.
\<close>

lemma proto_key_not_loaded:
  "load_HatDatabase None
     \<lparr>city_helmets_json = [], space_helmets_json = [],
      all_json = [(''__proto__'', clear_command), (''crown'', crown)],
      defaults_json = [(''clear!'', clear_command)]\<rparr> =
   [(''crown'', crown), (''clear!'', clear_command)]"
  by code_simp


section \<open>The menu\<close>

lemma regex_test_iff: "regex_test hatId \<longleftrightarrow> (\<exists>p. hatId = p @ ''!'')"
proof
  assume "regex_test hatId"
  then have "hatId \<noteq> []" and "last hatId = CHR ''!''"
    by (simp_all add: regex_test_def)
  then have "hatId = butlast hatId @ ''!''"
    using append_butlast_last_id [of hatId] by simp
  then show "\<exists>p. hatId = p @ ''!''" ..
next
  assume "\<exists>p. hatId = p @ ''!''"
  then show "regex_test hatId" by (auto simp: regex_test_def)
qed

lemma menu_buttons_xs:
  "set ks \<subseteq> dom (map_of db) \<Longrightarrow>
   map (\<lambda>b. map_option vec_x (tr_position (actor_transform b))) (menu_buttons n menu x db ks) =
   map (\<lambda>i. Some (x + 1.5 * real i)) [0..<length ks]"
proof (induction ks arbitrary: n x)
  case Nil
  show ?case by simp
next
  case (Cons k ks)
  from Cons.prems obtain d where d: "map_of db k = Some d" by auto
  have sub: "set ks \<subseteq> dom (map_of db)" using Cons.prems by simp
  have shift: "(\<lambda>i. Some (x + 1.5 * real (Suc i))) = (\<lambda>i. Some (x + 1.5 + 1.5 * real i))"
    by (rule ext) (simp add: algebra_simps)
  have hd: "map_option vec_x (tr_position (actor_transform (button_actor n menu x k d))) =
            Some (x + 1.5 * real 0)"
    by (simp add: button_actor_def vec3_def)
  have "map (\<lambda>b. map_option vec_x (tr_position (actor_transform b)))
          (menu_buttons n menu x db (k # ks)) =
        Some (x + 1.5 * real 0) # map (\<lambda>i. Some (x + 1.5 + 1.5 * real i)) [0..<length ks]"
    using Cons.IH [OF sub, of "Suc n" "x + 1.5"] hd by (simp add: d)
  also have "\<dots> = map (\<lambda>i. Some (x + 1.5 * real i)) [0..<length (k # ks)]"
    unfolding shift [symmetric] by (simp add: map_upt_Suc del: upt_Suc)
  finally show ?case .
qed

text \<open>
  C8. For every catalog (a dictionary: no key occurs twice), of any size, \<open>showHatMenu\<close>
  ends without an exception and adds to the scene the menu's parent and then one button
  for each key of the catalog, in the order of \<^verbatim>\<open>Object.keys\<close>: there are as many buttons
  as catalog entries, the buttons are distinct actors, the keys are distinct and are exactly
  the keys of the catalog, the click handlers bound are those of the buttons paired, in
  order, with the keys, and the \<open>i\<close>-th button (counting from 0) stands at \<open>x = 1.5 * i\<close>.
\<close>

theorem menu_one_entry_per_key:
  assumes "distinct (map fst (HatDatabase s))"
  shows "\<exists>s' menu buttons.
     showHatMenu s = Inr s' \<and>
     actors (app_context s') = actors (app_context s) @ menu # buttons \<and>
     behaviors (app_context s') =
       behaviors (app_context s) @ zip (map actor_id buttons) (Object_keys (HatDatabase s)) \<and>
     length buttons = length (HatDatabase s) \<and>
     length (Object_keys (HatDatabase s)) = length (HatDatabase s) \<and>
     distinct (map actor_id buttons) \<and>
     distinct (Object_keys (HatDatabase s)) \<and>
     set (Object_keys (HatDatabase s)) = fst ` set (HatDatabase s) \<and>
     map (\<lambda>b. map_option vec_x (tr_position (actor_transform b))) buttons =
       map (\<lambda>i. Some (1.5 * real i)) [0..<length (HatDatabase s)]"
proof -
  let ?db = "HatDatabase s"
  let ?n = "length (actors (app_context s))"
  let ?bs = "menu_buttons (Suc ?n) ?n 0 ?db (Object_keys ?db)"
  let ?s' = "s\<lparr>app_context := (app_context s)
       \<lparr>actors := actors (app_context s) @ menu_actor ?n # ?bs,
        behaviors := behaviors (app_context s) @
          zip [Suc ?n..<Suc ?n + length ?db] (Object_keys ?db)\<rparr>\<rparr>"
  have sub: "set (Object_keys ?db) \<subseteq> dom (map_of ?db)"
    by (rule Object_keys_in_dom)
  have ids: "map actor_id ?bs = [Suc ?n..<Suc ?n + length ?db]"
    using menu_buttons_ids [OF sub, of "Suc ?n" ?n 0] by (simp add: length_Object_keys)
  have len: "length ?bs = length ?db"
    using length_menu_buttons [OF sub, of "Suc ?n" ?n 0] by (simp add: length_Object_keys)
  have xs: "map (\<lambda>b. map_option vec_x (tr_position (actor_transform b))) ?bs =
            map (\<lambda>i. Some (1.5 * real i)) [0..<length ?db]"
    using menu_buttons_xs [OF sub, of "Suc ?n" ?n 0] by (simp add: length_Object_keys)
  have "showHatMenu s = Inr ?s'"
    by (rule showHatMenu_result)
  moreover have "actors (app_context ?s') = actors (app_context s) @ menu_actor ?n # ?bs"
    by simp
  moreover have "behaviors (app_context ?s') =
       behaviors (app_context s) @ zip (map actor_id ?bs) (Object_keys ?db)"
    by (simp add: ids)
  moreover have "distinct (map actor_id ?bs)"
    unfolding ids by (rule distinct_upt)
  moreover have "distinct (Object_keys ?db)"
    using assms by (rule distinct_Object_keys)
  moreover have "set (Object_keys ?db) = fst ` set ?db"
    by (rule set_Object_keys)
  moreover have "length (Object_keys ?db) = length ?db"
    by (rule length_Object_keys)
  ultimately show ?thesis
    using len xs by blast
qed

theorem menu_one_entry_per_key_witness:
  "distinct (map fst (HatDatabase (new_WearAHat\<lparr>HatDatabase := load_HatDatabase None example_files\<rparr>))) \<and>
   Object_keys (load_HatDatabase None example_files) = [''crown'', ''tiara'', ''plain'', ''clear!''] \<and>
   (\<exists>s' menu buttons.
     showHatMenu (new_WearAHat\<lparr>HatDatabase := load_HatDatabase None example_files\<rparr>) = Inr s' \<and>
     actors (app_context s') = menu # buttons \<and>
     behaviors (app_context s') =
       zip (map actor_id buttons) [''crown'', ''tiara'', ''plain'', ''clear!''] \<and>
     length buttons = 4 \<and>
     distinct (map actor_id buttons) \<and>
     map (\<lambda>b. map_option vec_x (tr_position (actor_transform b))) buttons =
       [Some 0, Some 1.5, Some 3, Some 4.5])"
proof -
  let ?s = "new_WearAHat\<lparr>HatDatabase := load_HatDatabase None example_files\<rparr>"
  have db: "load_HatDatabase None example_files =
     [(''crown'', crown), (''tiara'', tiara), (''plain'', marker), (''clear!'', clear_command)]"
    by code_simp
  have keys: "Object_keys (load_HatDatabase None example_files) =
     [''crown'', ''tiara'', ''plain'', ''clear!'']"
    by code_simp
  have d: "distinct (map fst (HatDatabase ?s))"
    by (simp add: db)
  have xs: "map (\<lambda>i. Some (1.5 * real i)) [0..<4] = [Some 0, Some 1.5, Some 3, Some (4.5::real)]"
    by code_simp
  have four: "length (load_HatDatabase None example_files) = 4"
    by (simp add: db)
  from menu_one_entry_per_key [OF d] obtain s' menu buttons where
    "showHatMenu ?s = Inr s'"
    "actors (app_context s') = actors (app_context ?s) @ menu # buttons"
    "behaviors (app_context s') =
       behaviors (app_context ?s) @ zip (map actor_id buttons) (Object_keys (HatDatabase ?s))"
    "length buttons = length (HatDatabase ?s)"
    "distinct (map actor_id buttons)"
    "map (\<lambda>b. map_option vec_x (tr_position (actor_transform b))) buttons =
       map (\<lambda>i. Some (1.5 * real i)) [0..<length (HatDatabase ?s)]"
    by blast
  then have
    "showHatMenu ?s = Inr s' \<and>
     actors (app_context s') = menu # buttons \<and>
     behaviors (app_context s') =
       zip (map actor_id buttons) [''crown'', ''tiara'', ''plain'', ''clear!''] \<and>
     length buttons = 4 \<and>
     distinct (map actor_id buttons) \<and>
     map (\<lambda>b. map_option vec_x (tr_position (actor_transform b))) buttons =
       [Some 0, Some 1.5, Some 3, Some 4.5]"
    using keys four xs by (simp add: new_WearAHat_def)
  then have "\<exists>s' menu buttons.
     showHatMenu ?s = Inr s' \<and>
     actors (app_context s') = menu # buttons \<and>
     behaviors (app_context s') =
       zip (map actor_id buttons) [''crown'', ''tiara'', ''plain'', ''clear!''] \<and>
     length buttons = 4 \<and>
     distinct (map actor_id buttons) \<and>
     map (\<lambda>b. map_option vec_x (tr_position (actor_transform b))) buttons =
       [Some 0, Some 1.5, Some 3, Some 4.5]"
    by (intro exI)
  with d keys show ?thesis by (intro conjI)
qed

text \<open>The menus of the empty catalog and of a catalog with one entry.\<close>

lemma menu_of_empty_catalog:
  "map_sum id (\<lambda>s. (length (actors (app_context s)), behaviors (app_context s)))
     (showHatMenu new_WearAHat) = Inr (1, [])"
  by code_simp

lemma menu_of_singleton_catalog:
  "map_sum id (\<lambda>s. (length (actors (app_context s)), behaviors (app_context s)))
     (showHatMenu (new_WearAHat\<lparr>HatDatabase := [(''crown'', crown)]\<rparr>)) = Inr (2, [(1, ''crown'')])"
  by code_simp

text \<open>
  C9 as the specification states it: a command entry (an identifier ending in \<open>!\<close>) uses
  the descriptor's own scale, rotation and position for its menu presentation. In the
  started example session the entry of \<^verbatim>\<open>clear!\<close> is resource-backed and its descriptor
  has position (5,5,5); its button, the actor 4, stands at the layout position
  (4.5, 1, 0), not at the descriptor's position.
\<close>

theorem command_entry_ignores_descriptor_position:
  "regex_test ''clear!'' \<and>
   map_of (HatDatabase example_started) ''clear!'' = Some clear_command \<and>
   truthy_string (resourceId clear_command) \<and>
   position clear_command = Some (vec3 5 5 5) \<and>
   behaviors (app_context example_started) ! 3 = (4, ''clear!'') \<and>
   tr_position (actor_transform (actors (app_context example_started) ! 4)) =
     Some (vec3 4.5 1 0) \<and>
   tr_position (actor_transform (actors (app_context example_started) ! 4)) \<noteq>
     position clear_command"
proof -
  have a: "regex_test ''clear!''" by (simp add: regex_test_def)
  have b: "map_of (HatDatabase example_started) ''clear!'' = Some clear_command"
    by (simp add: example_started_HatDatabase)
  have c: "truthy_string (resourceId clear_command)"
    by (simp add: truthy_string_def clear_command_def)
  have d: "position clear_command = Some (vec3 5 5 5)"
    by (simp add: clear_command_def)
  have e: "behaviors (app_context example_started) ! 3 = (4, ''clear!'')"
    by code_simp
  have f: "tr_position (actor_transform (actors (app_context example_started) ! 4)) =
     Some (vec3 4.5 1 0)"
    by code_simp
  have "vec3 4.5 1 0 \<noteq> vec3 5 5 5"
    by (simp add: vec3_def)
  with a b c d e f show ?thesis by simp
qed

text \<open>
  C9, amended. For every resource-backed catalog entry the button of the menu is placed at
  the layout position \<open>(1.5 * i, 1, 0)\<close>, whatever the descriptor's position and whether
  or not the entry is a command. Its rotation and scale are decided by whether the
  identifier ends in \<open>!\<close>: a command entry takes the descriptor's rotation and the
  descriptor's scale, each when the descriptor has it, and zero rotation or scale (3,3,3)
  for a component the descriptor omits; every other resource-backed entry has zero rotation
  and scale (3,3,3) regardless of the descriptor.
\<close>

theorem menu_transform_policy:
  assumes "i < length (HatDatabase s)"
    and "map_of (HatDatabase s) (Object_keys (HatDatabase s) ! i) = Some d"
    and "truthy_string (resourceId d)"
  shows "\<exists>s'. showHatMenu s = Inr s' \<and>
     behaviors (app_context s') ! (length (behaviors (app_context s)) + i) =
       (Suc (length (actors (app_context s))) + i, Object_keys (HatDatabase s) ! i) \<and>
     actor_id (actors (app_context s') ! (Suc (length (actors (app_context s))) + i)) =
       Suc (length (actors (app_context s))) + i \<and>
     actor_source (actors (app_context s') ! (Suc (length (actors (app_context s))) + i)) =
       Library (resourceId d) \<and>
     actor_transform (actors (app_context s') ! (Suc (length (actors (app_context s))) + i)) =
       \<lparr>tr_position = Some (vec3 (1.5 * real i) 1 0),
        tr_rotation = Some (euler_degrees
          (if regex_test (Object_keys (HatDatabase s) ! i)
           then (case rotation d of None \<Rightarrow> vec3 0 0 0 | Some r \<Rightarrow> r)
           else vec3 0 0 0)),
        tr_scale = Some
          (if regex_test (Object_keys (HatDatabase s) ! i)
           then (case scale d of None \<Rightarrow> vec3 3 3 3 | Some v \<Rightarrow> v)
           else vec3 3 3 3)\<rparr>"
proof -
  let ?db = "HatDatabase s"
  let ?n = "length (actors (app_context s))"
  let ?ks = "Object_keys ?db"
  let ?bs = "menu_buttons (Suc ?n) ?n 0 ?db ?ks"
  let ?s' = "s\<lparr>app_context := (app_context s)
       \<lparr>actors := actors (app_context s) @ menu_actor ?n # ?bs,
        behaviors := behaviors (app_context s) @ zip [Suc ?n..<Suc ?n + length ?db] ?ks\<rparr>\<rparr>"
  have sub: "set ?ks \<subseteq> dom (map_of ?db)"
    by (rule Object_keys_in_dom)
  have i: "i < length ?ks"
    using assms(1) by (simp add: length_Object_keys)
  have b: "?bs ! i = button_actor (Suc ?n + i) ?n (1.5 * real i) (?ks ! i) d"
    using menu_buttons_nth [OF sub i, of "Suc ?n" ?n 0] assms(2) by simp
  have nth_actor: "actors (app_context ?s') ! (Suc ?n + i) = ?bs ! i"
    by (simp add: nth_append)
  have nth_beh: "behaviors (app_context ?s') ! (length (behaviors (app_context s)) + i) =
        (Suc ?n + i, ?ks ! i)"
    using i assms(1) by (simp add: nth_append length_Object_keys del: upt_Suc)
  have res: "showHatMenu s = Inr ?s'"
    by (rule showHatMenu_result)
  have tr: "actor_transform (button_actor (Suc ?n + i) ?n (1.5 * real i) (?ks ! i) d) =
       \<lparr>tr_position = Some (vec3 (1.5 * real i) 1 0),
        tr_rotation = Some (euler_degrees
          (if regex_test (?ks ! i)
           then (case rotation d of None \<Rightarrow> vec3 0 0 0 | Some r \<Rightarrow> r)
           else vec3 0 0 0)),
        tr_scale = Some
          (if regex_test (?ks ! i)
           then (case scale d of None \<Rightarrow> vec3 3 3 3 | Some v \<Rightarrow> v)
           else vec3 3 3 3)\<rparr>"
    using assms(3)
    by (simp add: button_actor_def menu_rotation_def menu_scale_def split: option.splits)
  have id: "actor_id (button_actor (Suc ?n + i) ?n (1.5 * real i) (?ks ! i) d) = Suc ?n + i"
    by (simp add: button_actor_def)
  have src: "actor_source (button_actor (Suc ?n + i) ?n (1.5 * real i) (?ks ! i) d) =
      Library (resourceId d)"
    using assms(3) by (simp add: button_actor_def)
  show ?thesis
    unfolding res
    using nth_beh tr id src unfolding nth_actor [symmetric] b [symmetric] by blast
qed

theorem menu_transform_policy_witness:
  "(3::nat) < length (HatDatabase (new_WearAHat\<lparr>HatDatabase := load_HatDatabase None example_files\<rparr>)) \<and>
   Object_keys (load_HatDatabase None example_files) ! 3 = ''clear!'' \<and>
   map_of (load_HatDatabase None example_files) ''clear!'' = Some clear_command \<and>
   truthy_string (resourceId clear_command) \<and>
   regex_test ''clear!'' \<and>
   (\<exists>s'. showHatMenu (new_WearAHat\<lparr>HatDatabase := load_HatDatabase None example_files\<rparr>) = Inr s' \<and>
      behaviors (app_context s') ! 3 = (4, ''clear!'') \<and>
      actor_transform (actors (app_context s') ! 4) =
        \<lparr>tr_position = Some (vec3 4.5 1 0),
         tr_rotation = Some (euler_degrees (vec3 0 45 0)),
         tr_scale = Some (vec3 1 1 1)\<rparr>)"
proof -
  let ?s = "new_WearAHat\<lparr>HatDatabase := load_HatDatabase None example_files\<rparr>"
  have db: "load_HatDatabase None example_files =
     [(''crown'', crown), (''tiara'', tiara), (''plain'', marker), (''clear!'', clear_command)]"
    by code_simp
  have keys: "Object_keys (load_HatDatabase None example_files) =
     [''crown'', ''tiara'', ''plain'', ''clear!'']"
    by code_simp
  have h1: "3 < length (HatDatabase ?s)"
    by (simp add: db)
  have k: "Object_keys (HatDatabase ?s) ! 3 = ''clear!''"
    by (simp add: keys)
  have h2: "map_of (HatDatabase ?s) (Object_keys (HatDatabase ?s) ! 3) = Some clear_command"
    unfolding k by (simp add: db)
  have h3: "truthy_string (resourceId clear_command)"
    by (simp add: truthy_string_def clear_command_def)
  have r: "regex_test ''clear!''"
    by (simp add: regex_test_def)
  from menu_transform_policy [OF h1 h2 h3] obtain s' where
    "showHatMenu ?s = Inr s'"
    "behaviors (app_context s') ! (length (behaviors (app_context ?s)) + 3) =
       (Suc (length (actors (app_context ?s))) + 3, Object_keys (HatDatabase ?s) ! 3)"
    "actor_transform (actors (app_context s') ! (Suc (length (actors (app_context ?s))) + 3)) =
       \<lparr>tr_position = Some (vec3 (1.5 * real 3) 1 0),
        tr_rotation = Some (euler_degrees
          (if regex_test (Object_keys (HatDatabase ?s) ! 3)
           then (case rotation clear_command of None \<Rightarrow> vec3 0 0 0 | Some r \<Rightarrow> r)
           else vec3 0 0 0)),
        tr_scale = Some
          (if regex_test (Object_keys (HatDatabase ?s) ! 3)
           then (case scale clear_command of None \<Rightarrow> vec3 3 3 3 | Some v \<Rightarrow> v)
           else vec3 3 3 3)\<rparr>"
    by blast
  then have "showHatMenu ?s = Inr s' \<and>
      behaviors (app_context s') ! 3 = (4, ''clear!'') \<and>
      actor_transform (actors (app_context s') ! 4) =
        \<lparr>tr_position = Some (vec3 4.5 1 0),
         tr_rotation = Some (euler_degrees (vec3 0 45 0)),
         tr_scale = Some (vec3 1 1 1)\<rparr>"
    unfolding k using r by (simp add: new_WearAHat_def clear_command_def)
  then have ex: "\<exists>s'. showHatMenu ?s = Inr s' \<and>
      behaviors (app_context s') ! 3 = (4, ''clear!'') \<and>
      actor_transform (actors (app_context s') ! 4) =
        \<lparr>tr_position = Some (vec3 4.5 1 0),
         tr_rotation = Some (euler_degrees (vec3 0 45 0)),
         tr_scale = Some (vec3 1 1 1)\<rparr>"
    by (intro exI)
  have k': "Object_keys (load_HatDatabase None example_files) ! 3 = ''clear!''"
    using k by simp
  have m: "map_of (load_HatDatabase None example_files) ''clear!'' = Some clear_command"
    by (simp add: db)
  from h1 k' m h3 r ex show ?thesis by (intro conjI)
qed

end
